theory Spec2Isabelle
  imports Main "HOL-Library.Word"
begin

section \<open>JavaScript strings\<close>

text \<open>
  A JavaScript string is a sequence of UTF-16 code units; \<open>length\<close> counts code units.
  String literals of the source are written as ASCII literals and converted by \<open>lit\<close>.
\<close>

type_synonym jsstring = "16 word list"

definition lit :: "string \<Rightarrow> jsstring" where
  "lit s = map (\<lambda>c. of_nat (of_char c)) s"

text \<open>
  \<open>String.prototype.trim\<close> removes the code units of WhiteSpace and LineTerminator
  (ECMAScript): TAB, LF, VT, FF, CR, SP, NBSP, U+1680, U+2000..U+200A, U+2028, U+2029,
  U+202F, U+205F, U+3000 and U+FEFF.
\<close>

definition isWhiteSpace :: "16 word \<Rightarrow> bool" where
  "isWhiteSpace c \<longleftrightarrow>
     c = 0x09 \<or> c = 0x0A \<or> c = 0x0B \<or> c = 0x0C \<or> c = 0x0D \<or> c = 0x20 \<or> c = 0xA0 \<or>
     c = 0x1680 \<or> (0x2000 \<le> c \<and> c \<le> 0x200A) \<or> c = 0x2028 \<or> c = 0x2029 \<or>
     c = 0x202F \<or> c = 0x205F \<or> c = 0x3000 \<or> c = 0xFEFF"

definition trim :: "jsstring \<Rightarrow> jsstring" where
  "trim s = rev (dropWhile isWhiteSpace (rev (dropWhile isWhiteSpace s)))"

text \<open>\<open>String.prototype.includes\<close>: the argument occurs as a contiguous substring.\<close>

fun starts_with :: "jsstring \<Rightarrow> jsstring \<Rightarrow> bool" where
  "starts_with s [] = True"
| "starts_with [] (y # ys) = False"
| "starts_with (x # xs) (y # ys) = (x = y \<and> starts_with xs ys)"

fun includes_str :: "jsstring \<Rightarrow> jsstring \<Rightarrow> bool" where
  "includes_str [] sub = (sub = [])"
| "includes_str (x # xs) sub = (starts_with (x # xs) sub \<or> includes_str xs sub)"

text \<open>\<open>Array.prototype.join\<close> on an array of strings.\<close>

fun join :: "jsstring \<Rightarrow> jsstring list \<Rightarrow> jsstring" where
  "join sep [] = []"
| "join sep [x] = x"
| "join sep (x # y # ys) = x @ sep @ join sep (y # ys)"

text \<open>The decimal rendering of a non-negative integer, as a template literal renders it.\<close>

definition digit :: "nat \<Rightarrow> 16 word" where
  "digit d = of_nat (48 + d)"

fun toString :: "nat \<Rightarrow> jsstring" where
  "toString n = (if n < 10 then [digit n] else toString (n div 10) @ [digit (n mod 10)])"

text \<open>A string is truthy when it is not empty.\<close>

definition truthy :: "jsstring \<Rightarrow> bool" where
  "truthy s \<longleftrightarrow> s \<noteq> []"

section \<open>Data model of the service\<close>

text \<open>A thrown JavaScript \<open>Error\<close>, with its \<open>message\<close>.\<close>

datatype error = Error (message: jsstring)

text \<open>The argument of \<open>worker.setParameters\<close>.\<close>

record parameters =
  tessedit_char_whitelist :: jsstring
  tessedit_pageseg_mode :: jsstring

text \<open>
  The calls the handler makes to its collaborators (fs-extra, pdf-parse, pdf2pic,
  tesseract.js, the express response), in the order they are made.
\<close>

datatype call =
    ReadFile jsstring
  | PdfParse
  | Bulk jsstring
  | CreateWorker
  | LoadLanguage jsstring
  | Initialize jsstring
  | SetParameters parameters
  | Recognize jsstring
  | Terminate
  | Remove jsstring
  | Respond nat

text \<open>
  The state a request runs in: the files present under the temporary directories, and the
  collaborator calls made so far.
\<close>

record world =
  files :: "jsstring set"
  calls :: "call list"

text \<open>
  A tesseract.js worker. Every method may reject; \<open>terminate\<close> is given the number of
  earlier \<open>terminate\<close> calls on the same worker, since the source may call it twice.
\<close>

record worker =
  loadLanguage :: "jsstring \<Rightarrow> error option"
  initialize :: "jsstring \<Rightarrow> error option"
  setParameters :: "parameters \<Rightarrow> error option"
  recognize :: "jsstring \<Rightarrow> error + jsstring"
  terminate :: "nat \<Rightarrow> error option"

text \<open>
  The outcome of pdf2pic's \<open>convert.bulk\<close>: the paths of the page images it wrote, or a
  rejection. pdf2pic writes the page images into \<open>savePath\<close> one after the other, so a
  rejection may come after some of them were written: the rejection carries their paths.
\<close>

datatype bulk_result =
    Rendered "jsstring list"
  | BulkRejected "jsstring list" error

text \<open>
  The collaborators of a request. \<open>createWorker n\<close> is the outcome of the \<open>n\<close>-th call
  of \<open>createWorker\<close> within the request (counted from 0); \<open>remove_rejects p\<close> says
  whether \<open>fs.remove p\<close> rejects, leaving the file in place.
\<close>

record env =
  readFile :: "jsstring \<Rightarrow> error + 8 word list"
  pdfParse :: "8 word list \<Rightarrow> error + jsstring"
  bulk :: "jsstring \<Rightarrow> bulk_result"
  createWorker :: "nat \<Rightarrow> error + worker"
  remove_rejects :: "jsstring \<Rightarrow> bool"

text \<open>\<open>req.file\<close> as multer fills it in, and the request.\<close>

record upload =
  path :: jsstring
  originalname :: jsstring

record request =
  req_file :: "upload option"
  body_moduleId :: "jsstring option"

text \<open>The JSON bodies the handler sends, and the response with its status.\<close>

record success_body =
  success :: bool
  text_field :: jsstring
  filename :: jsstring
  moduleId :: jsstring
  textLength :: nat
  method_field :: jsstring

datatype json =
    ErrorJson jsstring
  | ErrorDetailsJson jsstring jsstring
  | SuccessJson success_body

datatype response = Response (status: nat) (body: json)

section \<open>The page recogniser\<close>

definition char_whitelist :: jsstring where
  "char_whitelist =
     lit ''ABCDEFGHIJKLMNOPQRSTUVWXYZabcdefghijklmnopqrstuvwxyz0123456789 .,;:!?-()[]{}/'' @
     [0x22, 0x27]"

definition profile :: parameters where
  "profile = \<lparr>tessedit_char_whitelist = char_whitelist, tessedit_pageseg_mode = lit ''1''\<rparr>"

text \<open>
  The \<open>try\<close> block of \<open>extractTextWithTesseract\<close>: the result, and the calls made on the
  worker until the block returned or threw.
\<close>

definition recognize_block :: "worker \<Rightarrow> jsstring \<Rightarrow> (error + jsstring) \<times> call list" where
  "recognize_block w imagePath =
     (case loadLanguage w (lit ''eng'') of
        Some e \<Rightarrow> (Inl e, [LoadLanguage (lit ''eng'')])
      | None \<Rightarrow>
     (case initialize w (lit ''eng'') of
        Some e \<Rightarrow> (Inl e, [LoadLanguage (lit ''eng''), Initialize (lit ''eng'')])
      | None \<Rightarrow>
     (case setParameters w profile of
        Some e \<Rightarrow> (Inl e, [LoadLanguage (lit ''eng''), Initialize (lit ''eng''),
                    SetParameters profile])
      | None \<Rightarrow>
     (case recognize w imagePath of
        Inl e \<Rightarrow> (Inl e, [LoadLanguage (lit ''eng''), Initialize (lit ''eng''),
                    SetParameters profile, Recognize imagePath])
      | Inr text \<Rightarrow>
     (case terminate w 0 of
        Some e \<Rightarrow> (Inl e, [LoadLanguage (lit ''eng''), Initialize (lit ''eng''),
                    SetParameters profile, Recognize imagePath, Terminate])
      | None \<Rightarrow> (Inr text, [LoadLanguage (lit ''eng''), Initialize (lit ''eng''),
                    SetParameters profile, Recognize imagePath, Terminate]))))))"

text \<open>
  \<open>extractTextWithTesseract\<close>, called for the \<open>n\<close>-th time in a request. \<open>createWorker\<close>
  is outside the \<open>try\<close>; the \<open>catch\<close> terminates the worker and rethrows, unless
  \<open>terminate\<close> itself rejects, and then that rejection is what the caller sees.
\<close>

definition extractTextWithTesseract ::
    "env \<Rightarrow> nat \<Rightarrow> jsstring \<Rightarrow> (error + jsstring) \<times> call list" where
  "extractTextWithTesseract ev n imagePath =
     (case createWorker ev n of
        Inl e \<Rightarrow> (Inl e, [CreateWorker])
      | Inr w \<Rightarrow>
         (case recognize_block w imagePath of
            (Inr text, cs) \<Rightarrow> (Inr text, CreateWorker # cs)
          | (Inl err, cs) \<Rightarrow>
             (case terminate w (count_list cs Terminate) of
                Some e \<Rightarrow> (Inl e, CreateWorker # cs @ [Terminate])
              | None \<Rightarrow> (Inl err, CreateWorker # cs @ [Terminate]))))"

section \<open>The handler of \<open>POST /ocr\<close>\<close>

definition log_call :: "call \<Rightarrow> world \<Rightarrow> world" where
  "log_call c w = w\<lparr>calls := calls w @ [c]\<rparr>"

text \<open>\<open>await fs.remove(p).catch(() => {})\<close>: a rejection is swallowed and the file stays.\<close>

definition remove :: "env \<Rightarrow> jsstring \<Rightarrow> world \<Rightarrow> world" where
  "remove ev p w =
     log_call (Remove p)
       (if remove_rejects ev p then w else w\<lparr>files := files w - {p}\<rparr>)"

definition convertPdfToImages ::
    "env \<Rightarrow> jsstring \<Rightarrow> world \<Rightarrow> (error + jsstring list) \<times> world" where
  "convertPdfToImages ev pdfPath w =
     (case bulk ev pdfPath of
        Rendered ps \<Rightarrow> (Inr ps, log_call (Bulk pdfPath) (w\<lparr>files := files w \<union> set ps\<rparr>))
      | BulkRejected written e \<Rightarrow>
          (Inl e, log_call (Bulk pdfPath) (w\<lparr>files := files w \<union> set written\<rparr>)))"

text \<open>The entry pushed for page \<open>n\<close>: the marker line, then the trimmed page text.\<close>

definition page_entry :: "nat \<Rightarrow> jsstring \<Rightarrow> jsstring" where
  "page_entry n t = lit ''--- Page '' @ toString n @ lit '' ---'' @ [0x0A] @ t"

text \<open>
  One pass of the per-page loop body: the \<open>try\<close> around the recogniser and the push, with
  the \<open>catch\<close> that only logs.
\<close>

definition ocr_page ::
    "env \<Rightarrow> jsstring list \<Rightarrow> nat \<Rightarrow> jsstring list \<Rightarrow> world \<Rightarrow> jsstring list \<times> world" where
  "ocr_page ev imagePaths i ocrResults w =
     (case extractTextWithTesseract ev i (imagePaths ! i) of
        (Inr pageText, cs) \<Rightarrow>
          (if length (trim pageText) > 10
           then ocrResults @ [page_entry (i + 1) (trim pageText)]
           else ocrResults,
           w\<lparr>calls := calls w @ cs\<rparr>)
      | (Inl ocrError, cs) \<Rightarrow> (ocrResults, w\<lparr>calls := calls w @ cs\<rparr>))"

function ocr_loop ::
    "env \<Rightarrow> jsstring list \<Rightarrow> nat \<Rightarrow> jsstring list \<Rightarrow> world \<Rightarrow> jsstring list \<times> world" where
  "ocr_loop ev imagePaths i ocrResults w =
     (if i < length imagePaths
      then (let (ocrResults', w') = ocr_page ev imagePaths i ocrResults w
            in ocr_loop ev imagePaths (i + 1) ocrResults' w')
      else (ocrResults, w))"
  by pat_completeness auto
termination
  by (relation "measure (\<lambda>(ev, imagePaths, i, ocrResults, w). length imagePaths - i)") auto

declare ocr_loop.simps [simp del]

text \<open>\<open>for (const imagePath of imagePaths) await fs.remove(imagePath).catch(() => {})\<close>\<close>

fun cleanup_images :: "env \<Rightarrow> jsstring list \<Rightarrow> world \<Rightarrow> world" where
  "cleanup_images ev [] w = w"
| "cleanup_images ev (imagePath # rest) w = cleanup_images ev rest (remove ev imagePath w)"

text \<open>
  The inner \<open>try\<close>: structural extraction with pdf-parse. A rejection of \<open>fs.readFile\<close>
  or \<open>pdfParse\<close> and the \<open>throw\<close> of the \<open>else\<close> branch all reach the inner \<open>catch\<close>.
\<close>

definition basic_extraction ::
    "env \<Rightarrow> jsstring \<Rightarrow> world \<Rightarrow> (error + jsstring) \<times> world" where
  "basic_extraction ev pdfPath w =
     (case readFile ev pdfPath of
        Inl e \<Rightarrow> (Inl e, log_call (ReadFile pdfPath) w)
      | Inr pdfBuffer \<Rightarrow>
         (case pdfParse ev pdfBuffer of
            Inl e \<Rightarrow> (Inl e, log_call PdfParse (log_call (ReadFile pdfPath) w))
          | Inr pdfText \<Rightarrow>
              (if truthy pdfText \<and> length (trim pdfText) > 100
               then Inr (trim pdfText)
               else Inl (Error (lit ''Basic extraction insufficient, trying OCR'')),
               log_call PdfParse (log_call (ReadFile pdfPath) w))))"

text \<open>
  The inner \<open>catch\<close>: the recognition pipeline. A rejection of \<open>convertPdfToImages\<close>
  leaves the block at once and reaches the outer \<open>catch\<close>.
\<close>

definition ocr_fallback ::
    "env \<Rightarrow> jsstring \<Rightarrow> world \<Rightarrow> (error + jsstring) \<times> world" where
  "ocr_fallback ev pdfPath w =
     (case convertPdfToImages ev pdfPath w of
        (Inl e, w1) \<Rightarrow> (Inl e, w1)
      | (Inr imagePaths, w1) \<Rightarrow>
          (let (ocrResults, w2) = ocr_loop ev imagePaths 0 [] w1;
               extractedText = join [0x0A, 0x0A] ocrResults
           in (Inr extractedText, cleanup_images ev imagePaths w2)))"

definition extract_text ::
    "env \<Rightarrow> jsstring \<Rightarrow> world \<Rightarrow> (error + jsstring) \<times> world" where
  "extract_text ev pdfPath w =
     (case basic_extraction ev pdfPath w of
        (Inr extractedText, w1) \<Rightarrow> (Inr extractedText, w1)
      | (Inl basicError, w1) \<Rightarrow> ocr_fallback ev pdfPath w1)"

definition respond :: "nat \<Rightarrow> json \<Rightarrow> world \<Rightarrow> response \<times> world" where
  "respond st b w = (Response st b, log_call (Respond st) w)"

text \<open>\<open>req.body.moduleId || 'unknown'\<close>\<close>

definition moduleId_of :: "request \<Rightarrow> jsstring" where
  "moduleId_of req =
     (case body_moduleId req of
        None \<Rightarrow> lit ''unknown''
      | Some m \<Rightarrow> if truthy m then m else lit ''unknown'')"

definition post_ocr :: "env \<Rightarrow> request \<Rightarrow> world \<Rightarrow> response \<times> world" where
  "post_ocr ev req w =
     (case req_file req of
        None \<Rightarrow> respond 400 (ErrorJson (lit ''No PDF file uploaded'')) w
      | Some f \<Rightarrow>
         (case extract_text ev (path f) w of
            (Inr extractedText, w1) \<Rightarrow>
              (let w2 = remove ev (path f) w1 in
               if \<not> truthy extractedText \<or> length (trim extractedText) < 50
               then respond 500
                      (ErrorDetailsJson (lit ''Text extraction failed'')
                         (lit ''Unable to extract meaningful text from PDF'')) w2
               else respond 200
                      (SuccessJson
                         \<lparr>success = True,
                          text_field = trim extractedText,
                          filename = originalname f,
                          moduleId = moduleId_of req,
                          textLength = length (trim extractedText),
                          method_field =
                            (if includes_str extractedText (lit ''Basic extraction'')
                             then lit ''basic'' else lit ''ocr'')\<rparr>) w2)
          | (Inl err, w1) \<Rightarrow>
              respond 500 (ErrorDetailsJson (lit ''PDF processing failed'') (message err))
                (if truthy (path f) then remove ev (path f) w1 else w1)))"

section \<open>What each page contributes\<close>

text \<open>
  Names for what one pass of the per-page loop does at index \<open>i\<close>: the text the recogniser
  returned (if it returned), whether the page passes the per-page check, the entries the
  pass pushes, and the calls it makes.
\<close>

definition recognized :: "env \<Rightarrow> jsstring list \<Rightarrow> nat \<Rightarrow> jsstring option" where
  "recognized ev imagePaths i =
     (case fst (extractTextWithTesseract ev i (imagePaths ! i)) of
        Inr t \<Rightarrow> Some t
      | Inl ocrError \<Rightarrow> None)"

definition page_accepted :: "env \<Rightarrow> jsstring list \<Rightarrow> nat \<Rightarrow> bool" where
  "page_accepted ev imagePaths i =
     (case recognized ev imagePaths i of
        Some t \<Rightarrow> length (trim t) > 10
      | None \<Rightarrow> False)"

definition page_result :: "env \<Rightarrow> jsstring list \<Rightarrow> nat \<Rightarrow> jsstring list" where
  "page_result ev imagePaths i =
     (case fst (extractTextWithTesseract ev i (imagePaths ! i)) of
        Inr pageText \<Rightarrow>
          if length (trim pageText) > 10 then [page_entry (i + 1) (trim pageText)] else []
      | Inl ocrError \<Rightarrow> [])"

definition page_calls :: "env \<Rightarrow> jsstring list \<Rightarrow> nat \<Rightarrow> call list" where
  "page_calls ev imagePaths i = snd (extractTextWithTesseract ev i (imagePaths ! i))"


section \<open>Sample requests\<close>

text \<open>
  Concrete collaborators and requests, on which the theorems below are run. The upload is
  already stored by multer when the handler starts, so it is among the files of the
  initial world.
\<close>

definition ok_worker :: "jsstring \<Rightarrow> worker" where
  "ok_worker t =
     \<lparr>loadLanguage = (\<lambda>lang. None), initialize = (\<lambda>lang. None),
      setParameters = (\<lambda>ps. None), recognize = (\<lambda>imagePath. Inr t),
      terminate = (\<lambda>n. None)\<rparr>"


definition scan_upload :: upload where
  "scan_upload = \<lparr>path = lit ''/tmp/uploads/a1'', originalname = lit ''scan.pdf''\<rparr>"

definition scan_request :: request where
  "scan_request = \<lparr>req_file = Some scan_upload, body_moduleId = None\<rparr>"

definition tagged_request :: request where
  "tagged_request = \<lparr>req_file = Some scan_upload, body_moduleId = Some (lit ''module-123'')\<rparr>"

definition scan_world :: world where
  "scan_world = \<lparr>files = {lit ''/tmp/uploads/a1''}, calls = []\<rparr>"

text \<open>A scan of one page, with no text layer, whose recognised text has 35 characters.\<close>

definition one_page_env :: env where
  "one_page_env =
     \<lparr>readFile = (\<lambda>p. Inr []), pdfParse = (\<lambda>b. Inr []),
      bulk = (\<lambda>p. Rendered [lit ''/tmp/pdf-images/page.1.png'']),
      createWorker = (\<lambda>n. Inr (ok_worker (replicate 35 0x61))),
      remove_rejects = (\<lambda>p. False)\<rparr>"

definition one_page_text :: jsstring where
  "one_page_text = lit ''--- Page 1 ---'' @ [0x0A] @ replicate 35 0x61"

definition one_page_body :: success_body where
  "one_page_body =
     \<lparr>success = True, text_field = one_page_text, filename = lit ''scan.pdf'',
      moduleId = lit ''unknown'', textLength = 50, method_field = lit ''ocr''\<rparr>"


text \<open>
  A scan of three pages with no text layer. In \<open>three_page_env\<close> the recogniser rejects
  the second page; in \<open>noisy_env\<close> it returns five characters between white space for
  it; in \<open>unreadable_env\<close> it rejects every page.
\<close>

definition three_pages :: "jsstring list" where
  "three_pages =
     [lit ''/tmp/pdf-images/page.1.png'', lit ''/tmp/pdf-images/page.2.png'',
      lit ''/tmp/pdf-images/page.3.png'']"


definition noisy_env :: env where
  "noisy_env =
     \<lparr>readFile = (\<lambda>p. Inr []), pdfParse = (\<lambda>b. Inr []),
      bulk = (\<lambda>p. Rendered three_pages),
      createWorker =
        (\<lambda>n. Inr (ok_worker (if n = 1 then lit ''  noise  '' else lit ''recognised words''))),
      remove_rejects = (\<lambda>p. False)\<rparr>"


definition pages_1_and_3 :: jsstring where
  "pages_1_and_3 =
     lit ''--- Page 1 ---'' @ [0x0A] @ lit ''recognised words'' @ [0x0A, 0x0A] @
     lit ''--- Page 3 ---'' @ [0x0A] @ lit ''recognised words''"

text \<open>A PDF with a text layer of 101 letters, between white space.\<close>

definition text_layer_env :: env where
  "text_layer_env =
     \<lparr>readFile = (\<lambda>p. Inr [0x25, 0x50, 0x44, 0x46]),
      pdfParse = (\<lambda>b. Inr (lit ''  '' @ replicate 101 0x61 @ [0x0A])),
      bulk = (\<lambda>p. Rendered three_pages),
      createWorker = (\<lambda>n. Inr (ok_worker (lit ''recognised words''))),
      remove_rejects = (\<lambda>p. False)\<rparr>"

definition text_layer_body :: success_body where
  "text_layer_body =
     \<lparr>success = True, text_field = replicate 101 0x61, filename = lit ''scan.pdf'',
      moduleId = lit ''unknown'', textLength = 101, method_field = lit ''ocr''\<rparr>"

text \<open>
  A scan with no text layer on which pdf2pic writes the image of the first page and then
  rejects.
\<close>

definition broken_scan_env :: env where
  "broken_scan_env =
     \<lparr>readFile = (\<lambda>p. Inr []), pdfParse = (\<lambda>b. Inr []),
      bulk = (\<lambda>p. BulkRejected [lit ''/tmp/pdf-images/page.1.png'']
                     (Error (lit ''page 2 cannot be rendered''))),
      createWorker = (\<lambda>n. Inr (ok_worker (lit ''recognised words''))),
      remove_rejects = (\<lambda>p. False)\<rparr>"

section \<open>Strings\<close>

lemma dropWhile_rev_dropWhile:
  "dropWhile P (rev (dropWhile P (rev (dropWhile P s)))) = rev (dropWhile P (rev (dropWhile P s)))"
proof (cases "dropWhile P (rev (dropWhile P s)) = []")
  case True
  show ?thesis by (simp only: True) simp
next
  case False
  then obtain y ys where y: "dropWhile P (rev (dropWhile P s)) = y # ys"
    by (cases "dropWhile P (rev (dropWhile P s))") auto
  have "dropWhile P s \<noteq> []"
  proof
    assume e: "dropWhile P s = []"
    from y show False unfolding e by simp
  qed
  then have h: "\<not> P (hd (dropWhile P s))" by (rule hd_dropWhile)
  have "rev (y # ys) = rev (dropWhile P (rev (dropWhile P s)))" using y by simp
  moreover have "\<exists>zs. dropWhile P s = rev (dropWhile P (rev (dropWhile P s))) @ zs"
    by (metis takeWhile_dropWhile_id rev_append rev_rev_ident)
  ultimately obtain zs where "dropWhile P s = rev (y # ys) @ zs" by metis
  then have "hd (dropWhile P s) = hd (rev (y # ys))" by (simp add: hd_append)
  with h have "\<not> P (hd (rev (y # ys)))" by simp
  then have "dropWhile P (rev (y # ys)) = rev (y # ys)"
    by (cases "rev (y # ys)") auto
  with y show ?thesis by simp
qed

lemma trim_idem: "trim (trim s) = trim s"
proof -
  let ?d = "dropWhile isWhiteSpace"
  have "?d (rev (?d (rev (?d s)))) = rev (?d (rev (?d s)))"
    by (rule dropWhile_rev_dropWhile)
  then show ?thesis
    by (simp add: trim_def dropWhile_idem)
qed

lemma trim_no_leading: "dropWhile isWhiteSpace (trim s) = trim s"
  unfolding trim_def by (rule dropWhile_rev_dropWhile)

lemma trim_ends:
  assumes "trim s \<noteq> []"
  shows "\<not> isWhiteSpace (hd (trim s))" and "\<not> isWhiteSpace (last (trim s))"
proof -
  from assms have "dropWhile isWhiteSpace (trim s) \<noteq> []"
    by (simp add: trim_no_leading)
  then have "\<not> isWhiteSpace (hd (dropWhile isWhiteSpace (trim s)))"
    by (rule hd_dropWhile)
  then show "\<not> isWhiteSpace (hd (trim s))"
    by (simp add: trim_no_leading)
  let ?r = "dropWhile isWhiteSpace (rev (dropWhile isWhiteSpace s))"
  from assms have ne: "?r \<noteq> []" by (simp add: trim_def)
  then have "\<not> isWhiteSpace (hd ?r)" by (rule hd_dropWhile)
  moreover have "last (trim s) = hd ?r"
    using ne by (simp add: trim_def last_rev)
  ultimately show "\<not> isWhiteSpace (last (trim s))" by simp
qed

section \<open>The per-page loop and the cleanup loop\<close>

lemma ocr_page_eq:
  "ocr_page ev ps i acc w =
     (acc @ page_result ev ps i, w\<lparr>calls := calls w @ page_calls ev ps i\<rparr>)"
  by (simp add: ocr_page_def page_result_def page_calls_def split: prod.splits sum.splits)

lemma ocr_loop_eq:
  "ocr_loop ev ps i acc w =
     (acc @ concat (map (page_result ev ps) [i..<length ps]),
      w\<lparr>calls := calls w @ concat (map (page_calls ev ps) [i..<length ps])\<rparr>)"
proof (induction ev ps i acc w rule: ocr_loop.induct)
  case (1 ev ps i acc w)
  show ?case
  proof (cases "i < length ps")
    case True
    then have u: "[i..<length ps] = i # [i + 1..<length ps]"
      by (simp add: upt_conv_Cons)
    show ?thesis
      using True "1.IH" [OF True, of "(acc @ page_result ev ps i, w\<lparr>calls := calls w @ page_calls ev ps i\<rparr>)"]
      by (subst ocr_loop.simps) (simp add: ocr_page_eq u)
  next
    case False
    then show ?thesis
      by (subst ocr_loop.simps) simp
  qed
qed

lemma cleanup_images_files:
  "files (cleanup_images ev ps w) = files w - {p \<in> set ps. \<not> remove_rejects ev p}"
  by (induction ps arbitrary: w) (auto simp: remove_def log_call_def)

lemma cleanup_images_calls:
  "calls (cleanup_images ev ps w) = calls w @ map Remove ps"
  by (induction ps arbitrary: w) (auto simp: remove_def log_call_def)

lemma concat_map_if:
  "concat (map (\<lambda>i. if P i then [f i] else []) xs) = map f (filter P xs)"
  by (induction xs) auto

lemma page_result_accepted:
  "page_result ev ps i =
     (if page_accepted ev ps i then [page_entry (i + 1) (trim (the (recognized ev ps i)))] else [])"
  by (simp add: page_result_def page_accepted_def recognized_def split: sum.splits)

lemma ocr_results_eq:
  "fst (ocr_loop ev ps 0 [] w) =
     map (\<lambda>i. page_entry (i + 1) (trim (the (recognized ev ps i))))
       (filter (page_accepted ev ps) [0..<length ps])"
proof -
  have "page_result ev ps =
          (\<lambda>i. if page_accepted ev ps i
                then [page_entry (i + 1) (trim (the (recognized ev ps i)))] else [])"
    by (rule ext) (rule page_result_accepted)
  then show ?thesis
    by (simp add: ocr_loop_eq concat_map_if)
qed

lemma ocr_fallback_rendered:
  assumes "bulk ev pdfPath = Rendered ps"
  shows "ocr_fallback ev pdfPath w =
           (Inr (join [0x0A, 0x0A] (fst (ocr_loop ev ps 0 [] w))),
            cleanup_images ev ps
              (w\<lparr>files := files w \<union> set ps,
                 calls := calls w @ Bulk pdfPath # concat (map (page_calls ev ps) [0..<length ps])\<rparr>))"
  using assms
  by (simp add: ocr_fallback_def convertPdfToImages_def ocr_loop_eq log_call_def)

lemma ocr_fallback_rejected:
  assumes "bulk ev pdfPath = BulkRejected written e"
  shows "ocr_fallback ev pdfPath w =
           (Inl e, w\<lparr>files := files w \<union> set written, calls := calls w @ [Bulk pdfPath]\<rparr>)"
  using assms
  by (simp add: ocr_fallback_def convertPdfToImages_def log_call_def)

lemma basic_extraction_world:
  "\<exists>cs. snd (basic_extraction ev p w) = w\<lparr>calls := calls w @ cs\<rparr> \<and>
        set cs \<subseteq> {ReadFile p, PdfParse}"
  by (auto simp: basic_extraction_def log_call_def split: sum.splits)

lemma extract_text_basic:
  assumes "fst (basic_extraction ev p w) = Inr t"
  shows "extract_text ev p w = (Inr t, snd (basic_extraction ev p w))"
  using assms by (cases "basic_extraction ev p w") (simp add: extract_text_def)

lemma extract_text_fallback:
  assumes "fst (basic_extraction ev p w) = Inl e"
  shows "extract_text ev p w = ocr_fallback ev p (snd (basic_extraction ev p w))"
  using assms by (cases "basic_extraction ev p w") (simp add: extract_text_def)

lemma post_ocr_text:
  assumes "req_file req = Some f" and "fst (extract_text ev (path f) w) = Inr t"
  shows "fst (post_ocr ev req w) =
           (if \<not> truthy t \<or> length (trim t) < 50
            then Response 500
                   (ErrorDetailsJson (lit ''Text extraction failed'')
                      (lit ''Unable to extract meaningful text from PDF''))
            else Response 200
                   (SuccessJson
                      \<lparr>success = True, text_field = trim t, filename = originalname f,
                       moduleId = moduleId_of req, textLength = length (trim t),
                       method_field =
                         (if includes_str t (lit ''Basic extraction'')
                          then lit ''basic'' else lit ''ocr'')\<rparr>))"
  using assms
  by (cases "extract_text ev (path f) w") (simp add: post_ocr_def respond_def Let_def)

lemma post_ocr_error:
  assumes "req_file req = Some f" and "fst (extract_text ev (path f) w) = Inl e"
  shows "fst (post_ocr ev req w) =
           Response 500 (ErrorDetailsJson (lit ''PDF processing failed'') (message e))"
  using assms
  by (cases "extract_text ev (path f) w") (simp add: post_ocr_def respond_def)

lemma post_ocr_no_file:
  assumes "req_file req = None"
  shows "post_ocr ev req w =
           (Response 400 (ErrorJson (lit ''No PDF file uploaded'')), log_call (Respond 400) w)"
  using assms by (simp add: post_ocr_def respond_def)

lemma post_ocr_success:
  assumes "fst (post_ocr ev req w) = Response st (SuccessJson b)"
  obtains f t where "req_file req = Some f" and "fst (extract_text ev (path f) w) = Inr t"
    and "truthy t" and "50 \<le> length (trim t)" and "st = 200"
    and "b = \<lparr>success = True, text_field = trim t, filename = originalname f,
              moduleId = moduleId_of req, textLength = length (trim t),
              method_field =
                (if includes_str t (lit ''Basic extraction'') then lit ''basic'' else lit ''ocr'')\<rparr>"
proof (cases "req_file req")
  case None
  with assms show ?thesis by (simp add: post_ocr_no_file)
next
  case (Some f)
  show ?thesis
  proof (cases "fst (extract_text ev (path f) w)")
    case (Inl e)
    with Some assms show ?thesis by (simp add: post_ocr_error)
  next
    case (Inr t)
    with Some assms that [OF Some Inr] show ?thesis
      by (simp add: post_ocr_text split: if_splits)
  qed
qed

section \<open>The final acceptance check\<close>

text \<open>
  C1, as the claim states it, fails: a scan of one page whose recognised text has 35
  characters gives the candidate \<open>--- Page 1 ---\<close>, a line feed and the 35 characters,
  of trimmed length exactly 50, and the handler answers with the success body.
\<close>

theorem final_check_accepts_50:
  "fst (extract_text one_page_env (path scan_upload) scan_world) = Inr one_page_text \<and>
   length (trim one_page_text) = 50 \<and>
   fst (post_ocr one_page_env scan_request scan_world) = Response 200 (SuccessJson one_page_body)"
  by code_simp

text \<open>
  C1 (amended): whichever tier produced the candidate text, the handler accepts it exactly
  when its trimmed length is at least 50 (the source rejects on \<open>length < 50\<close>): then the
  response is the success body carrying the trimmed text, and otherwise it is the
  extraction failure with status 500.
\<close>

theorem final_check_at_least_50:
  assumes "req_file req = Some f" and "fst (extract_text ev (path f) w) = Inr t"
  shows "if 50 \<le> length (trim t)
         then fst (post_ocr ev req w) =
                Response 200
                  (SuccessJson
                     \<lparr>success = True, text_field = trim t, filename = originalname f,
                      moduleId = moduleId_of req, textLength = length (trim t),
                      method_field =
                        (if includes_str t (lit ''Basic extraction'')
                         then lit ''basic'' else lit ''ocr'')\<rparr>)
         else fst (post_ocr ev req w) =
                Response 500
                  (ErrorDetailsJson (lit ''Text extraction failed'')
                     (lit ''Unable to extract meaningful text from PDF''))"
proof -
  have "trim [] = []" by (simp add: trim_def)
  then have "50 \<le> length (trim t) \<Longrightarrow> truthy t"
    by (auto simp: truthy_def)
  then show ?thesis
    using post_ocr_text [OF assms] by auto
qed

theorem final_check_at_least_50_witness:
  "req_file scan_request = Some scan_upload \<and>
   fst (extract_text one_page_env (path scan_upload) scan_world) = Inr one_page_text \<and>
   length (trim one_page_text) = 50 \<and>
   status (fst (post_ocr one_page_env scan_request scan_world)) = 200"
proof -
  have a: "req_file scan_request = Some scan_upload" by (simp add: scan_request_def)
  have b: "fst (extract_text one_page_env (path scan_upload) scan_world) = Inr one_page_text"
    by code_simp
  have c: "length (trim one_page_text) = 50" by code_simp
  show ?thesis
    using a b c final_check_at_least_50 [OF a b] by simp
qed

section \<open>The success body\<close>

text \<open>
  C9: in every success body, \<open>moduleId\<close> is the literal \<open>unknown\<close> when the caller
  omitted the field or sent the empty string, and the caller's value verbatim otherwise.
\<close>

theorem moduleId_default:
  assumes "fst (post_ocr ev req w) = Response st (SuccessJson b)"
  shows "moduleId b =
           (case body_moduleId req of
              None \<Rightarrow> lit ''unknown''
            | Some m \<Rightarrow> if m = [] then lit ''unknown'' else m)"
  using assms
  by (elim post_ocr_success) (simp add: moduleId_of_def truthy_def split: option.splits)

theorem moduleId_default_witness:
  "fst (post_ocr one_page_env tagged_request scan_world) =
     Response 200 (SuccessJson (one_page_body\<lparr>moduleId := lit ''module-123''\<rparr>)) \<and>
   body_moduleId tagged_request = Some (lit ''module-123'') \<and>
   moduleId (one_page_body\<lparr>moduleId := lit ''module-123''\<rparr>) = lit ''module-123''"
proof -
  have a: "fst (post_ocr one_page_env tagged_request scan_world) =
             Response 200 (SuccessJson (one_page_body\<lparr>moduleId := lit ''module-123''\<rparr>))"
    by code_simp
  have b: "body_moduleId tagged_request = Some (lit ''module-123'')"
    by (simp add: tagged_request_def)
  show ?thesis
    using a b moduleId_default [OF a] by (simp add: lit_def)
qed

text \<open>
  C10: in every success body, \<open>textLength\<close> is the length of the returned \<open>text\<close>, and
  that text is trimmed: trimming it again changes nothing, it is not empty, and neither
  its first nor its last code unit is white space.
\<close>

theorem success_text_trimmed:
  assumes "fst (post_ocr ev req w) = Response st (SuccessJson b)"
  shows "textLength b = length (text_field b) \<and>
         trim (text_field b) = text_field b \<and>
         text_field b \<noteq> [] \<and>
         \<not> isWhiteSpace (hd (text_field b)) \<and>
         \<not> isWhiteSpace (last (text_field b))"
proof -
  from assms obtain t where t: "50 \<le> length (trim t)"
    and b: "text_field b = trim t" "textLength b = length (trim t)"
    by (elim post_ocr_success) simp
  from t have ne: "trim t \<noteq> []" by auto
  show ?thesis
    using b ne trim_ends [OF ne] by (simp add: trim_idem)
qed

theorem success_text_trimmed_witness:
  "fst (post_ocr one_page_env scan_request scan_world) = Response 200 (SuccessJson one_page_body) \<and>
   textLength one_page_body = 50 \<and> length (text_field one_page_body) = 50 \<and>
   trim (text_field one_page_body) = text_field one_page_body"
proof -
  have a: "fst (post_ocr one_page_env scan_request scan_world) =
             Response 200 (SuccessJson one_page_body)"
    by code_simp
  have b: "textLength one_page_body = 50" by (simp add: one_page_body_def)
  show ?thesis
    using a b success_text_trimmed [OF a] by simp
qed

section \<open>The lifecycle of the recognition engine\<close>









section \<open>The recognition pipeline\<close>




lemma ocr_fallback_text:
  assumes "bulk ev pdfPath = Rendered ps"
  shows "fst (ocr_fallback ev pdfPath w) =
           Inr (join [0x0A, 0x0A]
                  (map (\<lambda>i. page_entry (i + 1) (trim (the (recognized ev ps i))))
                     (filter (page_accepted ev ps) [0..<length ps])))"
  by (simp add: ocr_fallback_rendered [OF assms] ocr_results_eq)



lemma unat_digit: "d < 10 \<Longrightarrow> unat (digit d) = 48 + d"
proof -
  assume "d < 10"
  then have "48 + d < 2 ^ LENGTH(16)" by simp
  then show ?thesis
    unfolding digit_def by (rule of_nat_inverse [OF refl])
qed

lemma toString_decimal: "foldl (\<lambda>a d. 10 * a + (unat d - 48)) 0 (toString n) = n"
proof (induction n rule: toString.induct)
  case (1 n)
  show ?case
  proof (cases "n < 10")
    case True
    then show ?thesis
      by (subst toString.simps) (simp add: unat_digit)
  next
    case False
    have "n mod 10 < 10" by simp
    then have "unat (digit (n mod 10)) = 48 + n mod 10"
      by (rule unat_digit)
    with False "1.IH" show ?thesis
      by (subst toString.simps) simp
  qed
qed

text \<open>
  C5: when the renderer returned the pages \<open>ps\<close>, the aggregated text is the join, with
  two line feeds (a blank line) between consecutive entries, of the entries of the accepted
  pages in page order; the entry of the page at index \<open>i\<close> is the marker line
  \<open>--- Page \<close>, the decimal numeral of \<open>i + 1\<close>, \<open> ---\<close>, a line feed, and the page's
  trimmed text; and a page is accepted if and only if the recogniser returned a text for
  it whose trimmed length is greater than 10.
\<close>

theorem page_acceptance_and_aggregation:
  assumes "bulk ev pdfPath = Rendered ps"
  shows "fst (ocr_fallback ev pdfPath w) =
           Inr (join [0x0A, 0x0A]
                  (map (\<lambda>i. lit ''--- Page '' @ toString (i + 1) @ lit '' ---'' @ [0x0A] @
                             trim (the (recognized ev ps i)))
                     (filter (page_accepted ev ps) [0..<length ps]))) \<and>
         (\<forall>i. page_accepted ev ps i \<longleftrightarrow>
              (\<exists>t. fst (extractTextWithTesseract ev i (ps ! i)) = Inr t \<and>
                   recognized ev ps i = Some t \<and> 10 < length (trim t)))"
proof -
  have "page_accepted ev ps i \<longleftrightarrow>
          (\<exists>t. fst (extractTextWithTesseract ev i (ps ! i)) = Inr t \<and>
               recognized ev ps i = Some t \<and> 10 < length (trim t))" for i
    by (cases "fst (extractTextWithTesseract ev i (ps ! i))")
      (simp_all add: page_accepted_def recognized_def)
  moreover have "fst (ocr_fallback ev pdfPath w) =
           Inr (join [0x0A, 0x0A]
                  (map (\<lambda>i. lit ''--- Page '' @ toString (i + 1) @ lit '' ---'' @ [0x0A] @
                             trim (the (recognized ev ps i)))
                     (filter (page_accepted ev ps) [0..<length ps])))"
    using ocr_fallback_text [OF assms, of w] by (simp only: page_entry_def)
  ultimately show ?thesis by blast
qed

theorem page_acceptance_and_aggregation_witness:
  "bulk noisy_env (path scan_upload) = Rendered three_pages \<and>
   fst (ocr_fallback noisy_env (path scan_upload) scan_world) = Inr pages_1_and_3"
proof -
  have a: "bulk noisy_env (path scan_upload) = Rendered three_pages"
    by (simp add: noisy_env_def)
  have r: "join [0x0A, 0x0A]
             (map (\<lambda>i. lit ''--- Page '' @ toString (i + 1) @ lit '' ---'' @ [0x0A] @
                        trim (the (recognized noisy_env three_pages i)))
                (filter (page_accepted noisy_env three_pages) [0..<length three_pages])) =
           pages_1_and_3"
    by code_simp
  show ?thesis
    using a r page_acceptance_and_aggregation [OF a, of scan_world] by simp
qed



section \<open>The two tiers\<close>

lemma trim_Nil: "trim [] = []"
  by (simp add: trim_def)

lemma basic_extraction_accepts:
  assumes "fst (basic_extraction ev p w) = Inr t"
  obtains buf pdfText where "readFile ev p = Inr buf" and "pdfParse ev buf = Inr pdfText"
    and "100 < length (trim pdfText)" and "t = trim pdfText"
  using assms
  by (auto simp: basic_extraction_def split: sum.splits if_splits)

lemma basic_extraction_structural:
  assumes "readFile ev p = Inr buf" and "pdfParse ev buf = Inr pdfText"
    and "100 < length (trim pdfText)"
  shows "basic_extraction ev p w =
           (Inr (trim pdfText), w\<lparr>calls := calls w @ [ReadFile p, PdfParse]\<rparr>)"
proof -
  from assms(3) have "pdfText \<noteq> []"
    by (auto simp: trim_Nil)
  with assms show ?thesis
    by (simp add: basic_extraction_def truthy_def log_call_def)
qed

lemma post_ocr_structural:
  assumes "req_file req = Some f" and "readFile ev (path f) = Inr buf"
    and "pdfParse ev buf = Inr pdfText" and "100 < length (trim pdfText)"
  shows "post_ocr ev req w =
           (Response 200
              (SuccessJson
                 \<lparr>success = True, text_field = trim pdfText, filename = originalname f,
                  moduleId = moduleId_of req, textLength = length (trim pdfText),
                  method_field =
                    (if includes_str (trim pdfText) (lit ''Basic extraction'')
                     then lit ''basic'' else lit ''ocr'')\<rparr>),
            w\<lparr>files := (if remove_rejects ev (path f) then files w else files w - {path f}),
              calls := calls w @ [ReadFile (path f), PdfParse, Remove (path f), Respond 200]\<rparr>)"
proof -
  have b: "basic_extraction ev (path f) w =
             (Inr (trim pdfText), w\<lparr>calls := calls w @ [ReadFile (path f), PdfParse]\<rparr>)"
    using assms(2-4) by (rule basic_extraction_structural)
  have "trim pdfText \<noteq> []" using assms(4) by auto
  with assms(1,4) b show ?thesis
    by (simp add: post_ocr_def extract_text_def respond_def remove_def log_call_def
        truthy_def trim_idem Let_def)
qed

lemma recognized_structural_indep:
  "recognized (ev\<lparr>readFile := rf, pdfParse := pp\<rparr>) ps i = recognized ev ps i"
  by (simp add: recognized_def extractTextWithTesseract_def)

lemma page_accepted_structural_indep:
  "page_accepted (ev\<lparr>readFile := rf, pdfParse := pp\<rparr>) ps = page_accepted ev ps"
  by (rule ext) (simp add: page_accepted_def recognized_structural_indep)

text \<open>
  C2: for a document whose structural text has more than 100 characters after trimming
  and does not contain the words \<open>Basic extraction\<close>, the handler reads and parses the
  upload, removes it and responds, without a call of the renderer or of the recogniser;
  but the \<open>method\<close> field of its success body is \<open>ocr\<close>, the name of the recognition tier.
\<close>

theorem structural_text_reported_as_ocr:
  assumes "req_file req = Some f" and "readFile ev (path f) = Inr buf"
    and "pdfParse ev buf = Inr pdfText" and "100 < length (trim pdfText)"
    and "\<not> includes_str (trim pdfText) (lit ''Basic extraction'')"
  shows "calls (snd (post_ocr ev req w)) =
           calls w @ [ReadFile (path f), PdfParse, Remove (path f), Respond 200] \<and>
         fst (post_ocr ev req w) =
           Response 200
             (SuccessJson
                \<lparr>success = True, text_field = trim pdfText, filename = originalname f,
                 moduleId = moduleId_of req, textLength = length (trim pdfText),
                 method_field = lit ''ocr''\<rparr>)"
  using assms(5) by (simp add: post_ocr_structural [OF assms(1-4)])

theorem structural_text_reported_as_ocr_witness:
  "pdfParse text_layer_env [0x25, 0x50, 0x44, 0x46] = Inr (lit ''  '' @ replicate 101 0x61 @ [0x0A]) \<and>
   length (trim (lit ''  '' @ replicate 101 0x61 @ [0x0A])) = 101 \<and>
   calls (snd (post_ocr text_layer_env scan_request scan_world)) =
     [ReadFile (lit ''/tmp/uploads/a1''), PdfParse, Remove (lit ''/tmp/uploads/a1''), Respond 200] \<and>
   fst (post_ocr text_layer_env scan_request scan_world) = Response 200 (SuccessJson text_layer_body) \<and>
   method_field text_layer_body = lit ''ocr''"
proof -
  have a: "req_file scan_request = Some scan_upload"
    by (simp add: scan_request_def)
  have b: "readFile text_layer_env (path scan_upload) = Inr [0x25, 0x50, 0x44, 0x46]"
    by (simp add: text_layer_env_def)
  have c: "pdfParse text_layer_env [0x25, 0x50, 0x44, 0x46] =
             Inr (lit ''  '' @ replicate 101 0x61 @ [0x0A])"
    by (simp add: text_layer_env_def)
  have t: "trim (lit ''  '' @ replicate 101 0x61 @ [0x0A]) = replicate 101 0x61"
    by code_simp
  have d: "100 < length (trim (lit ''  '' @ replicate 101 0x61 @ [0x0A]))"
    by (simp only: t) simp
  have e: "\<not> includes_str (trim (lit ''  '' @ replicate 101 0x61 @ [0x0A])) (lit ''Basic extraction'')"
    by code_simp
  have m: "moduleId_of scan_request = lit ''unknown''"
    by (simp add: moduleId_of_def scan_request_def)
  have p: "path scan_upload = lit ''/tmp/uploads/a1''" "originalname scan_upload = lit ''scan.pdf''"
    by (simp_all add: scan_upload_def)
  have w: "calls scan_world = []" by (simp add: scan_world_def)
  show ?thesis
    using c structural_text_reported_as_ocr [OF a b c d e, of scan_world]
    by (simp add: t m p w text_layer_body_def)
qed

text \<open>
  C7: in every success body the returned text comes from one tier. Either the structural
  tier was accepted: then the text is the trimmed structural text, and the handler made no
  call besides reading and parsing the upload, removing it and responding. Or the
  structural tier was rejected and the renderer returned pages: then the text is the
  trimmed join of the page entries, built from the recognised page texts alone; it is the
  same whatever \<open>fs.readFile\<close> and \<open>pdfParse\<close> would have returned.
\<close>

theorem tiers_never_merged:
  assumes "req_file req = Some f"
    and "fst (post_ocr ev req w) = Response st (SuccessJson b)"
  shows "(\<exists>buf pdfText.
            readFile ev (path f) = Inr buf \<and> pdfParse ev buf = Inr pdfText \<and>
            fst (basic_extraction ev (path f) w) = Inr (trim pdfText) \<and>
            text_field b = trim pdfText \<and>
            calls (snd (post_ocr ev req w)) =
              calls w @ [ReadFile (path f), PdfParse, Remove (path f), Respond 200]) \<or>
         (\<exists>e0 ps.
            fst (basic_extraction ev (path f) w) = Inl e0 \<and> bulk ev (path f) = Rendered ps \<and>
            text_field b =
              trim (join [0x0A, 0x0A]
                (map (\<lambda>i. page_entry (i + 1)
                        (trim (the (recognized (ev\<lparr>readFile := rf, pdfParse := pp\<rparr>) ps i))))
                   (filter (page_accepted (ev\<lparr>readFile := rf, pdfParse := pp\<rparr>) ps)
                      [0..<length ps]))))"
proof -
  from assms(2) obtain f' t where f': "req_file req = Some f'"
    and t: "fst (extract_text ev (path f') w) = Inr t" and b: "text_field b = trim t"
    by (elim post_ocr_success) simp
  from f' assms(1) have "f' = f" by simp
  with t have t: "fst (extract_text ev (path f) w) = Inr t" by simp
  show ?thesis
  proof (cases "fst (basic_extraction ev (path f) w)")
    case (Inr t')
    then obtain buf pdfText where s: "readFile ev (path f) = Inr buf"
      "pdfParse ev buf = Inr pdfText" "100 < length (trim pdfText)" and t': "t' = trim pdfText"
      by (rule basic_extraction_accepts)
    from Inr t have "t = t'"
      by (simp add: extract_text_basic [OF Inr])
    with b t' have "text_field b = trim pdfText"
      by (simp add: trim_idem)
    moreover have "calls (snd (post_ocr ev req w)) =
                     calls w @ [ReadFile (path f), PdfParse, Remove (path f), Respond 200]"
      by (simp add: post_ocr_structural [OF assms(1) s])
    ultimately show ?thesis
      using s(1,2) Inr t' by blast
  next
    case (Inl e0)
    then have x: "fst (ocr_fallback ev (path f) (snd (basic_extraction ev (path f) w))) = Inr t"
      using t by (simp add: extract_text_fallback [OF Inl])
    show ?thesis
    proof (cases "bulk ev (path f)")
      case (Rendered ps)
      from x have "t = join [0x0A, 0x0A]
                (map (\<lambda>i. page_entry (i + 1) (trim (the (recognized ev ps i))))
                   (filter (page_accepted ev ps) [0..<length ps]))"
        by (simp only: ocr_fallback_text [OF Rendered] sum.inject)
      with b have "text_field b =
              trim (join [0x0A, 0x0A]
                (map (\<lambda>i. page_entry (i + 1)
                        (trim (the (recognized (ev\<lparr>readFile := rf, pdfParse := pp\<rparr>) ps i))))
                   (filter (page_accepted (ev\<lparr>readFile := rf, pdfParse := pp\<rparr>) ps)
                      [0..<length ps])))"
        by (simp only: recognized_structural_indep page_accepted_structural_indep)
      with Inl Rendered show ?thesis by blast
    next
      case (BulkRejected written e)
      with x show ?thesis
        by (simp add: ocr_fallback_rejected [OF BulkRejected])
    qed
  qed
qed

theorem tiers_never_merged_witness:
  "req_file scan_request = Some scan_upload \<and>
   fst (post_ocr text_layer_env scan_request scan_world) =
     Response 200 (SuccessJson text_layer_body) \<and>
   text_field text_layer_body = replicate 101 0x61 \<and>
   fst (post_ocr one_page_env scan_request scan_world) =
     Response 200 (SuccessJson one_page_body) \<and>
   text_field one_page_body = one_page_text"
proof -
  have a: "req_file scan_request = Some scan_upload"
    by (simp add: scan_request_def)
  have b: "fst (post_ocr text_layer_env scan_request scan_world) =
             Response 200 (SuccessJson text_layer_body)"
    by code_simp
  have c: "fst (post_ocr one_page_env scan_request scan_world) =
             Response 200 (SuccessJson one_page_body)"
    by code_simp
  have d: "text_field text_layer_body = replicate 101 0x61"
    by (simp add: text_layer_body_def)
  have e: "text_field one_page_body = one_page_text"
    by (simp add: one_page_body_def)
  show ?thesis
    using a b c d e tiers_never_merged [OF a b] tiers_never_merged [OF a c] by simp
qed

section \<open>Cleanup of the temporary files\<close>

lemma basic_extraction_files: "files (snd (basic_extraction ev p w)) = files w"
  by (simp add: basic_extraction_def log_call_def split: sum.splits)

lemma post_ocr_rendered_files:
  assumes "req_file req = Some f" and "fst (basic_extraction ev (path f) w) = Inl e0"
    and "bulk ev (path f) = Rendered ps"
  shows "files (snd (post_ocr ev req w)) =
           (files w \<union> set ps) - {p \<in> insert (path f) (set ps). \<not> remove_rejects ev p}"
proof -
  let ?w1 = "snd (basic_extraction ev (path f) w)"
  have x: "extract_text ev (path f) w = ocr_fallback ev (path f) ?w1"
    by (rule extract_text_fallback [OF assms(2)])
  have "files (snd (ocr_fallback ev (path f) ?w1)) =
          (files w \<union> set ps) - {p \<in> set ps. \<not> remove_rejects ev p}"
    by (simp add: ocr_fallback_rendered [OF assms(3)] cleanup_images_files
        basic_extraction_files)
  then show ?thesis
    using assms(1)
    by (auto simp: post_ocr_def x ocr_fallback_rendered [OF assms(3)] respond_def remove_def
        log_call_def Let_def)
qed

lemma post_ocr_rendered_calls:
  assumes "req_file req = Some f" and "fst (basic_extraction ev (path f) w) = Inl e0"
    and "bulk ev (path f) = Rendered ps"
  shows "\<exists>st. calls (snd (post_ocr ev req w)) =
           calls (snd (basic_extraction ev (path f) w)) @
           Bulk (path f) # concat (map (page_calls ev ps) [0..<length ps]) @
           map Remove ps @ [Remove (path f), Respond st]"
  using assms(1)
  by (simp add: post_ocr_def extract_text_fallback [OF assms(2)]
      ocr_fallback_rendered [OF assms(3)] respond_def remove_def log_call_def Let_def
      cleanup_images_calls)

lemma extract_text_removal_indep:
  "fst (extract_text (ev\<lparr>remove_rejects := r\<rparr>) p w) = fst (extract_text ev p w)"
proof -
  let ?ev = "ev\<lparr>remove_rejects := r\<rparr>"
  have b: "fst (basic_extraction ?ev p w) = fst (basic_extraction ev p w)"
    by (simp add: basic_extraction_def split: sum.splits)
  have x: "extractTextWithTesseract ?ev = extractTextWithTesseract ev"
    by (intro ext) (simp add: extractTextWithTesseract_def)
  have rc: "recognized ?ev = recognized ev"
    by (intro ext) (simp add: recognized_def x)
  have pa: "page_accepted ?ev = page_accepted ev"
    by (intro ext) (simp add: page_accepted_def rc)
  have o: "fst (ocr_fallback ?ev p w1) = fst (ocr_fallback ev p w2)" for w1 w2
  proof (cases "bulk ev p")
    case (Rendered ps)
    then have "bulk ?ev p = Rendered ps" by simp
    then show ?thesis
      by (simp add: ocr_fallback_text Rendered rc pa)
  next
    case (BulkRejected written e)
    then have "bulk ?ev p = BulkRejected written e" by simp
    then show ?thesis
      by (simp add: ocr_fallback_rejected BulkRejected)
  qed
  show ?thesis
  proof (cases "fst (basic_extraction ev p w)")
    case (Inl e)
    with b have "fst (basic_extraction ?ev p w) = Inl e" by simp
    then show ?thesis
      by (simp add: extract_text_fallback Inl o)
  next
    case (Inr t)
    with b have "fst (basic_extraction ?ev p w) = Inr t" by simp
    then show ?thesis
      by (simp add: extract_text_basic Inr)
  qed
qed

lemma removal_rejections_swallowed:
  "fst (post_ocr (ev\<lparr>remove_rejects := r\<rparr>) req w) = fst (post_ocr ev req w)"
proof (cases "req_file req")
  case None
  then show ?thesis by (simp add: post_ocr_no_file)
next
  case (Some f)
  show ?thesis
  proof (cases "fst (extract_text ev (path f) w)")
    case (Inl e)
    then have "fst (extract_text (ev\<lparr>remove_rejects := r\<rparr>) (path f) w) = Inl e"
      by (simp add: extract_text_removal_indep)
    with Inl Some show ?thesis
      by (simp add: post_ocr_error)
  next
    case (Inr t)
    then have "fst (extract_text (ev\<lparr>remove_rejects := r\<rparr>) (path f) w) = Inr t"
      by (simp add: extract_text_removal_indep)
    with Inr Some show ?thesis
      by (simp add: post_ocr_text)
  qed
qed

text \<open>
  C3: when the structural tier does not deliver and pdf2pic rejects after it wrote the
  images \<open>written\<close>, the outer \<open>catch\<close> removes the upload only: the handler responds with
  status 500 (\<open>PDF processing failed\<close>), the only \<open>fs.remove\<close> before the response is
  that of the upload, and every written image is still on disk.
\<close>

theorem render_rejection_leaves_images:
  assumes "req_file req = Some f"
    and "fst (basic_extraction ev (path f) w) = Inl e0"
    and "bulk ev (path f) = BulkRejected written e"
  shows "fst (post_ocr ev req w) =
           Response 500 (ErrorDetailsJson (lit ''PDF processing failed'') (message e)) \<and>
         files (snd (post_ocr ev req w)) =
           (files w \<union> set written) -
           (if truthy (path f) \<and> \<not> remove_rejects ev (path f) then {path f} else {}) \<and>
         calls (snd (post_ocr ev req w)) =
           calls (snd (basic_extraction ev (path f) w)) @
           Bulk (path f) # (if truthy (path f) then [Remove (path f)] else []) @ [Respond 500]"
  using assms(1)
  by (simp add: post_ocr_def extract_text_fallback [OF assms(2)]
      ocr_fallback_rejected [OF assms(3)] respond_def remove_def log_call_def
      basic_extraction_files)

theorem render_rejection_leaves_images_witness:
  "req_file scan_request = Some scan_upload \<and>
   bulk broken_scan_env (path scan_upload) =
     BulkRejected [lit ''/tmp/pdf-images/page.1.png''] (Error (lit ''page 2 cannot be rendered'')) \<and>
   fst (post_ocr broken_scan_env scan_request scan_world) =
     Response 500
       (ErrorDetailsJson (lit ''PDF processing failed'') (lit ''page 2 cannot be rendered'')) \<and>
   files (snd (post_ocr broken_scan_env scan_request scan_world)) =
     {lit ''/tmp/pdf-images/page.1.png''} \<and>
   calls (snd (post_ocr broken_scan_env scan_request scan_world)) =
     [ReadFile (lit ''/tmp/uploads/a1''), PdfParse, Bulk (lit ''/tmp/uploads/a1''),
      Remove (lit ''/tmp/uploads/a1''), Respond 500]"
proof -
  have a: "req_file scan_request = Some scan_upload"
    by (simp add: scan_request_def)
  have b: "fst (basic_extraction broken_scan_env (path scan_upload) scan_world) =
             Inl (Error (lit ''Basic extraction insufficient, trying OCR''))"
    by code_simp
  have c: "bulk broken_scan_env (path scan_upload) =
     BulkRejected [lit ''/tmp/pdf-images/page.1.png''] (Error (lit ''page 2 cannot be rendered''))"
    by (simp add: broken_scan_env_def)
  have d: "(files scan_world \<union> set [lit ''/tmp/pdf-images/page.1.png'']) -
           (if truthy (path scan_upload) \<and> \<not> remove_rejects broken_scan_env (path scan_upload)
            then {path scan_upload} else {}) = {lit ''/tmp/pdf-images/page.1.png''}"
    by code_simp
  have e: "calls (snd (basic_extraction broken_scan_env (path scan_upload) scan_world)) @
           Bulk (path scan_upload) #
           (if truthy (path scan_upload) then [Remove (path scan_upload)] else []) @ [Respond 500] =
           [ReadFile (lit ''/tmp/uploads/a1''), PdfParse, Bulk (lit ''/tmp/uploads/a1''),
            Remove (lit ''/tmp/uploads/a1''), Respond 500]"
    by code_simp
  show ?thesis
    using a c render_rejection_leaves_images [OF a b c]
    by (simp only: d e message_def error.sel) simp
qed

end
